theory Spec2Isabelle
  imports Main "HOL-Library.Word"
begin

unbundle bit_operations_syntax

section \<open>The pin toggler of \<^verbatim>\<open>pinToggler.h\<close>\<close>

text \<open>
  The header defines a singleton class \<^verbatim>\<open>pinToggler<numPins>\<close> whose only object is
  reached through the static pointer \<^verbatim>\<open>pinTogglerBase::_instance\<close>. The object holds three
  arrays of \<^verbatim>\<open>uint8_t\<close> of length \<^verbatim>\<open>numPins\<close>; the TIMER1 overflow interrupt calls
  \<^verbatim>\<open>doLoop\<close> on it, and ordinary code calls the static members \<^verbatim>\<open>init\<close> and
  \<^verbatim>\<open>setFlashRate\<close>. The template parameter \<^verbatim>\<open>numPins\<close> is an explicit argument of every
  function below that is a member of the template.
\<close>

subsection \<open>Data\<close>

type_synonym uint8_t = "8 word"
type_synonym uint16_t = "16 word"

text \<open>
  \<^verbatim>\<open>enum FLASHRATE { OFF = 0, SLOW = 1, MEDIUM = 2, FAST = 4, MAX = 8 }\<close>; the enumerator
  \<^verbatim>\<open>MAX\<close> is \<open>MAX_RATE\<close> here.
\<close>

datatype FLASHRATE = OFF | SLOW | MEDIUM | FAST | MAX_RATE

fun FLASHRATE_value :: "FLASHRATE \<Rightarrow> int" where
  "FLASHRATE_value OFF = 0"
| "FLASHRATE_value SLOW = 1"
| "FLASHRATE_value MEDIUM = 2"
| "FLASHRATE_value FAST = 4"
| "FLASHRATE_value MAX_RATE = 8"

text \<open>
  The object: \<^verbatim>\<open>numDerivedPins\<close> is what the virtual member of that name returns
  (the template argument the object was created with); the three arrays are
  \<^verbatim>\<open>_LED_Pins\<close>, \<^verbatim>\<open>_LED_count\<close> and \<^verbatim>\<open>_LED_add\<close>.
\<close>

record pinToggler =
  numDerivedPins :: nat
  LED_Pins :: "uint8_t list"
  LED_count :: "uint8_t list"
  LED_add :: "uint8_t list"

text \<open>
  The board: the direction and the level of every pin, and the TIMER1 registers the
  header writes. The header only calls into the platform for these.
\<close>

datatype PINMODE = INPUT | OUTPUT

record board =
  pin_mode :: "uint8_t \<Rightarrow> PINMODE"
  pin_high :: "uint8_t \<Rightarrow> bool"
  TCCR1A :: uint8_t
  TCCR1B :: uint8_t
  TCNT1 :: uint16_t
  TIMSK1 :: uint8_t
  interrupts_enabled :: bool

text \<open>The program state: the static pointer \<^verbatim>\<open>_instance\<close> (\<open>None\<close> is \<^verbatim>\<open>NULL\<close>) and the board.\<close>

record system =
  p_instance :: "pinToggler option"
  hw :: board

subsection \<open>Platform primitives\<close>

text \<open>
  Modelled from the spec: the digital I/O primitives of the platform layer (section 6:
  configure a pin as output, write a level, read a level) are not part of the header.
  \<^verbatim>\<open>digitalWrite\<close> drives the pin low for the value \<^verbatim>\<open>LOW\<close> and high for any other value;
  \<^verbatim>\<open>digitalRead\<close> returns \<^verbatim>\<open>HIGH\<close> (1) or \<^verbatim>\<open>LOW\<close> (0).
\<close>

definition LOW :: int where "LOW = 0"
definition HIGH :: int where "HIGH = 1"

definition pinMode :: "uint8_t \<Rightarrow> PINMODE \<Rightarrow> board \<Rightarrow> board" where
  "pinMode pin m b = b\<lparr>pin_mode := (pin_mode b)(pin := m)\<rparr>"

definition digitalWrite :: "uint8_t \<Rightarrow> uint8_t \<Rightarrow> board \<Rightarrow> board" where
  "digitalWrite pin val b = b\<lparr>pin_high := (pin_high b)(pin := (val \<noteq> word_of_int LOW))\<rparr>"

definition digitalRead :: "uint8_t \<Rightarrow> board \<Rightarrow> int" where
  "digitalRead pin b = (if pin_high b pin then HIGH else LOW)"

text \<open>
  Modelled from the spec: the bit positions of the TIMER1 registers come from the
  platform's register header, which is not part of the repository (clock select bits
  \<^verbatim>\<open>CS10\<close>, \<^verbatim>\<open>CS12\<close> of \<^verbatim>\<open>TCCR1B\<close>, overflow interrupt enable \<^verbatim>\<open>TOIE1\<close> of \<^verbatim>\<open>TIMSK1\<close>).
\<close>

definition CS10 :: nat where "CS10 = 0"
definition CS12 :: nat where "CS12 = 2"
definition TOIE1 :: nat where "TOIE1 = 0"

text \<open>
  \<^verbatim>\<open>#define PRESCALER 1024\<close>, \<^verbatim>\<open>#define FLASH_FREQ_HZ 8\<close> and
  \<^verbatim>\<open>timer1_counter = 65536 - 16000000/PRESCALER/FLASH_FREQ_HZ\<close>, as it is stored into the
  16-bit register \<^verbatim>\<open>TCNT1\<close>.
\<close>

definition PRESCALER :: int where "PRESCALER = 1024"
definition FLASH_FREQ_HZ :: int where "FLASH_FREQ_HZ = 8"

definition timer1_counter :: uint16_t where
  "timer1_counter = word_of_int (65536 - 16000000 div PRESCALER div FLASH_FREQ_HZ)"

subsection \<open>Loops\<close>

text \<open>\<^verbatim>\<open>for (i = i0; i < n; i++) body\<close>, the shape of both loops of the header.\<close>

function for_loop :: "nat \<Rightarrow> nat \<Rightarrow> (nat \<Rightarrow> 's \<Rightarrow> 's) \<Rightarrow> 's \<Rightarrow> 's" where
  "for_loop i n body s = (if i < n then for_loop (Suc i) n body (body i s) else s)"
  by pat_completeness auto
termination
  by (relation "measure (\<lambda>(i, n, body, s). n - i)") auto

declare for_loop.simps [simp del]

subsection \<open>Construction and \<^verbatim>\<open>setupSingleton\<close>\<close>

text \<open>\<^verbatim>\<open>new pinToggler\<close>: the three arrays are initialised with \<^verbatim>\<open>{0}\<close>.\<close>

definition new_pinToggler :: "nat \<Rightarrow> pinToggler" where
  "new_pinToggler numPins =
     \<lparr>numDerivedPins = numPins,
      LED_Pins = replicate numPins 0,
      LED_count = replicate numPins 0,
      LED_add = replicate numPins 0\<rparr>"

text \<open>
  The body of the loop of \<^verbatim>\<open>setupSingleton\<close>. The argument \<open>pins\<close> is the caller's array
  \<^verbatim>\<open>LED_Pins\<close>; the loop reads its first \<^verbatim>\<open>numPins\<close> elements, so a shorter array is read
  out of bounds (undefined in C++, unspecified here).
\<close>

definition setupSingleton_body ::
  "uint8_t list \<Rightarrow> nat \<Rightarrow> pinToggler \<times> board \<Rightarrow> pinToggler \<times> board" where
  "setupSingleton_body pins i tb =
     (case tb of (t, b) \<Rightarrow>
        (t\<lparr>LED_Pins := (LED_Pins t)[i := pins ! i]\<rparr>,
         digitalWrite (pins ! i) (word_of_int LOW) (pinMode (pins ! i) OUTPUT b)))"

definition setup_timer :: "board \<Rightarrow> board" where
  "setup_timer b =
     (let b1 = b\<lparr>interrupts_enabled := False\<rparr>;
          b2 = b1\<lparr>TCCR1A := 0\<rparr>;
          b3 = b2\<lparr>TCCR1B := 0\<rparr>;
          b4 = b3\<lparr>TCNT1 := timer1_counter\<rparr>;
          b5 = b4\<lparr>TCCR1B := TCCR1B b4 OR push_bit CS12 1\<rparr>;
          b6 = b5\<lparr>TCCR1B := TCCR1B b5 OR push_bit CS10 1\<rparr>;
          b7 = b6\<lparr>TIMSK1 := TIMSK1 b6 OR push_bit TOIE1 1\<rparr>
      in b7\<lparr>interrupts_enabled := True\<rparr>)"

definition setupSingleton ::
  "nat \<Rightarrow> uint8_t list \<Rightarrow> pinToggler \<times> board \<Rightarrow> pinToggler \<times> board" where
  "setupSingleton numPins pins tb =
     (case for_loop 0 numPins (setupSingleton_body pins) tb of
        (t, b) \<Rightarrow> (t, setup_timer b))"

subsection \<open>\<^verbatim>\<open>doLoop\<close> and the interrupt service routine\<close>

text \<open>
  The body of the loop of \<^verbatim>\<open>doLoop\<close>: the \<^verbatim>\<open>uint8_t\<close> addition
  \<^verbatim>\<open>_LED_count[i] += _LED_add[i]\<close> wraps modulo 256; when the result is at least 8 the
  counter is reset and the pin is written with the complement of the level read.
\<close>

definition doLoop_body :: "nat \<Rightarrow> pinToggler \<times> board \<Rightarrow> pinToggler \<times> board" where
  "doLoop_body i tb =
     (case tb of (t, b) \<Rightarrow>
        (let t1 = t\<lparr>LED_count := (LED_count t)[i := LED_count t ! i + LED_add t ! i]\<rparr>
         in if 8 \<le> LED_count t1 ! i
            then (t1\<lparr>LED_count := (LED_count t1)[i := 0]\<rparr>,
                  digitalWrite (LED_Pins t1 ! i)
                    (word_of_int (digitalRead (LED_Pins t1 ! i) b XOR 1)) b)
            else (t1, b)))"

definition doLoop :: "nat \<Rightarrow> pinToggler \<times> board \<Rightarrow> pinToggler \<times> board" where
  "doLoop numPins tb = for_loop 0 numPins doLoop_body tb"

text \<open>
  \<^verbatim>\<open>ISR(TIMER1_OVF_vect)\<close>: reload the timer, then call \<^verbatim>\<open>doLoop\<close> through the base
  pointer (the virtual call runs the loop of the object's own \<^verbatim>\<open>numPins\<close>). With
  \<^verbatim>\<open>_instance == NULL\<close> the call dereferences a null pointer: \<open>None\<close>.
\<close>

definition TIMER1_OVF_vect :: "system \<Rightarrow> system option" where
  "TIMER1_OVF_vect s =
     (let b0 = (hw s)\<lparr>TCNT1 := timer1_counter\<rparr>
      in case p_instance s of
           None \<Rightarrow> None
         | Some t \<Rightarrow>
             (case doLoop (numDerivedPins t) (t, b0) of
                (t', b') \<Rightarrow> Some \<lparr>p_instance = Some t', hw = b'\<rparr>))"

subsection \<open>\<^verbatim>\<open>init\<close> and \<^verbatim>\<open>setFlashRate\<close>\<close>

text \<open>
  \<^verbatim>\<open>static int init(const uint8_t * LED_Pins)\<close>. The first component is the value returned:
  \<open>Some (-1)\<close> from the \<^verbatim>\<open>return -1\<close> of the guard, and \<open>None\<close> when control reaches the
  closing brace of the function, which has no \<^verbatim>\<open>return\<close> statement: no value is returned
  there.
\<close>

definition init :: "nat \<Rightarrow> uint8_t list \<Rightarrow> system \<Rightarrow> int option \<times> system" where
  "init numPins pins s =
     (if p_instance s \<noteq> None then (Some (- 1), s)
      else
        (let singletonInstance = new_pinToggler numPins
         in case setupSingleton numPins pins (singletonInstance, hw s) of
              (t, b) \<Rightarrow> (None, \<lparr>p_instance = Some t, hw = b\<rparr>)))"

text \<open>
  \<^verbatim>\<open>static int setFlashRate(const size_t LED, const FLASHRATE rate)\<close>: three guards in the
  order of the source, then the store into \<^verbatim>\<open>_LED_add[LED]\<close>.
\<close>

definition setFlashRate :: "nat \<Rightarrow> nat \<Rightarrow> FLASHRATE \<Rightarrow> system \<Rightarrow> int \<times> system" where
  "setFlashRate numPins LED rate s =
     (case p_instance s of
        None \<Rightarrow> (- 1, s)
      | Some t \<Rightarrow>
          if numDerivedPins t \<noteq> numPins then (- 2, s)
          else if LED \<ge> numPins then (- 3, s)
          else (0, s\<lparr>p_instance :=
                      Some (t\<lparr>LED_add := (LED_add t)[LED := word_of_int (FLASHRATE_value rate)]\<rparr>)\<rparr>))"

subsection \<open>Runs of the program\<close>

text \<open>
  After \<^verbatim>\<open>init\<close> the program is a sequence of timer interrupts and calls of
  \<^verbatim>\<open>setFlashRate\<close> from ordinary code (with any template argument, index and rate).
  A run stops with \<open>None\<close> when the interrupt finds no instance.
\<close>

datatype event = Tick | SetRate nat nat FLASHRATE

fun exec :: "event list \<Rightarrow> system \<Rightarrow> system option" where
  "exec [] s = Some s"
| "exec (Tick # es) s =
     (case TIMER1_OVF_vect s of None \<Rightarrow> None | Some s' \<Rightarrow> exec es s')"
| "exec (SetRate numPins LED rate # es) s = exec es (snd (setFlashRate numPins LED rate s))"

subsection \<open>Notions of the specification\<close>

text \<open>
  An object of \<^verbatim>\<open>pinToggler<numPins>\<close>: its three arrays have \<^verbatim>\<open>numPins\<close> elements.
\<close>

definition wf_toggler :: "nat \<Rightarrow> pinToggler \<Rightarrow> bool" where
  "wf_toggler numPins t \<longleftrightarrow>
     numDerivedPins t = numPins \<and> length (LED_Pins t) = numPins \<and>
     length (LED_count t) = numPins \<and> length (LED_add t) = numPins"

text \<open>\<open>PHASE_MAX\<close> of the specification, the literal 8 of \<^verbatim>\<open>doLoop\<close>.\<close>

definition PHASE_MAX :: nat where "PHASE_MAX = 8"

text \<open>
  The step of one pin slot in the words of the specification, on mathematical integers:
  the phase becomes phase + rateIncrement; if that is at least \<open>PHASE_MAX\<close> the phase is
  reset to 0 and the level is inverted.
\<close>

definition slot_step_spec :: "nat \<Rightarrow> nat \<times> bool \<Rightarrow> nat \<times> bool" where
  "slot_step_spec rateIncrement pl =
     (case pl of (phase, level) \<Rightarrow>
        if phase + rateIncrement \<ge> PHASE_MAX then (0, \<not> level)
        else (phase + rateIncrement, level))"

text \<open>The slot is the only one driving its pin.\<close>

definition sole_driver :: "pinToggler \<Rightarrow> nat \<Rightarrow> bool" where
  "sole_driver t i \<longleftrightarrow>
     (\<forall>j < length (LED_Pins t). j \<noteq> i \<longrightarrow> LED_Pins t ! j \<noteq> LED_Pins t ! i)"

text \<open>
  The levels of a pin observed before the first tick and after each of \<open>k\<close> ticks, and
  the number of level inversions in such an observation.
\<close>

definition level_trace :: "nat \<Rightarrow> nat \<Rightarrow> pinToggler \<times> board \<Rightarrow> uint8_t \<Rightarrow> bool list" where
  "level_trace numPins k tb pin =
     map (\<lambda>j. pin_high (snd ((doLoop numPins ^^ j) tb)) pin) [0..<Suc k]"

fun inversions :: "bool list \<Rightarrow> nat" where
  "inversions (x # y # zs) = (if x \<noteq> y then 1 else 0) + inversions (y # zs)"
| "inversions _ = 0"

subsection \<open>Example states\<close>

text \<open>
  A state before \<^verbatim>\<open>init\<close>: no instance, every pin an input at low level, the timer
  registers cleared.
\<close>

definition power_on :: system where
  "power_on =
     \<lparr>p_instance = None,
      hw = \<lparr>pin_mode = (\<lambda>_. INPUT), pin_high = (\<lambda>_. False),
            TCCR1A = 0, TCCR1B = 0, TCNT1 = 0, TIMSK1 = 0, interrupts_enabled = True\<rparr>\<rparr>"

text \<open>
  The state after \<^verbatim>\<open>uint8_t pins[2] = {13, 13}; pinToggler<2>::init(pins);
  pinToggler<2>::setFlashRate(1, MAX);\<close>: two slots drive the same pin.
\<close>

definition shared_pin_system :: system where
  "shared_pin_system = snd (setFlashRate 2 1 MAX_RATE (snd (init 2 [13, 13] power_on)))"

text \<open>The object of that state.\<close>

definition shared_pin_toggler :: pinToggler where
  "shared_pin_toggler =
     \<lparr>numDerivedPins = 2, LED_Pins = [13, 13], LED_count = [0, 0], LED_add = [0, 8]\<rparr>"

text \<open>
  The state after \<^verbatim>\<open>uint8_t pins[3] = {13, 18, 19}; pinToggler<3>::init(pins);\<close>.
\<close>

definition three_pin_system :: system where
  "three_pin_system = snd (init 3 [13, 18, 19] power_on)"

section \<open>Properties\<close>

subsection \<open>The loops\<close>

lemma for_loop_foldl: "for_loop i n body s = foldl (\<lambda>s j. body j s) s [i..<n]"
proof (induction i n body s rule: for_loop.induct)
  case (1 i n body s)
  show ?case
  proof (cases "i < n")
    case True
    with "1" show ?thesis by (subst for_loop.simps) (simp add: upt_rec)
  next
    case False
    then show ?thesis by (subst for_loop.simps) simp
  qed
qed

lemma invert_level: "((word_of_int (digitalRead p b XOR 1) :: uint8_t) \<noteq> word_of_int LOW) = (\<not> pin_high b p)"
  by (simp add: digitalRead_def LOW_def HIGH_def)

lemma doLoop_body_eq:
  assumes "i < length (LED_count t)"
  shows "doLoop_body i (t, b) =
    (t\<lparr>LED_count := (LED_count t)[i := (if 8 \<le> LED_count t ! i + LED_add t ! i then 0
                                           else LED_count t ! i + LED_add t ! i)]\<rparr>,
     if 8 \<le> LED_count t ! i + LED_add t ! i
     then b\<lparr>pin_high := (pin_high b)(LED_Pins t ! i := \<not> pin_high b (LED_Pins t ! i))\<rparr>
     else b)"
  using assms by (simp add: doLoop_body_def Let_def digitalWrite_def invert_level)


lemma doLoop_fold_frame:
  assumes "\<forall>j \<in> set js. j < length (LED_count t)"
  shows "LED_add (fst (foldl (\<lambda>tb j. doLoop_body j tb) (t, b) js)) = LED_add t \<and>
         LED_Pins (fst (foldl (\<lambda>tb j. doLoop_body j tb) (t, b) js)) = LED_Pins t \<and>
         numDerivedPins (fst (foldl (\<lambda>tb j. doLoop_body j tb) (t, b) js)) = numDerivedPins t \<and>
         length (LED_count (fst (foldl (\<lambda>tb j. doLoop_body j tb) (t, b) js))) = length (LED_count t) \<and>
         pin_mode (snd (foldl (\<lambda>tb j. doLoop_body j tb) (t, b) js)) = pin_mode b \<and>
         TCCR1A (snd (foldl (\<lambda>tb j. doLoop_body j tb) (t, b) js)) = TCCR1A b \<and>
         TCCR1B (snd (foldl (\<lambda>tb j. doLoop_body j tb) (t, b) js)) = TCCR1B b \<and>
         TCNT1 (snd (foldl (\<lambda>tb j. doLoop_body j tb) (t, b) js)) = TCNT1 b \<and>
         TIMSK1 (snd (foldl (\<lambda>tb j. doLoop_body j tb) (t, b) js)) = TIMSK1 b \<and>
         interrupts_enabled (snd (foldl (\<lambda>tb j. doLoop_body j tb) (t, b) js)) = interrupts_enabled b"
  using assms
proof (induction js rule: rev_induct)
  case Nil
  show ?case by simp
next
  case (snoc j js)
  obtain t' b' where tb: "foldl (\<lambda>tb j. doLoop_body j tb) (t, b) js = (t', b')"
    by (cases "foldl (\<lambda>tb j. doLoop_body j tb) (t, b) js")
  from snoc tb have ih: "LED_add t' = LED_add t" "LED_Pins t' = LED_Pins t"
    "numDerivedPins t' = numDerivedPins t" "length (LED_count t') = length (LED_count t)"
    "pin_mode b' = pin_mode b" "TCCR1A b' = TCCR1A b" "TCCR1B b' = TCCR1B b"
    "TCNT1 b' = TCNT1 b" "TIMSK1 b' = TIMSK1 b" "interrupts_enabled b' = interrupts_enabled b"
    by simp_all
  from snoc.prems ih have j: "j < length (LED_count t')" by simp
  show ?case by (simp add: tb doLoop_body_eq [OF j] ih)
qed

lemma doLoop_fold_count:
  assumes "\<forall>j \<in> set js. j < length (LED_count t)" and "distinct js" and "i < length (LED_count t)"
  shows "LED_count (fst (foldl (\<lambda>tb j. doLoop_body j tb) (t, b) js)) ! i =
         (if i \<in> set js
          then (if 8 \<le> LED_count t ! i + LED_add t ! i then 0 else LED_count t ! i + LED_add t ! i)
          else LED_count t ! i)"
  using assms
proof (induction js rule: rev_induct)
  case Nil
  show ?case by simp
next
  case (snoc j js)
  obtain t' b' where tb: "foldl (\<lambda>tb j. doLoop_body j tb) (t, b) js = (t', b')"
    by (cases "foldl (\<lambda>tb j. doLoop_body j tb) (t, b) js")
  from snoc.prems have js: "\<forall>j \<in> set js. j < length (LED_count t)" by simp
  from doLoop_fold_frame [OF js, of b] tb
  have fr: "LED_add t' = LED_add t" "length (LED_count t') = length (LED_count t)" by simp_all
  from snoc.prems fr have j: "j < length (LED_count t')" by simp
  from snoc tb have ih: "LED_count t' ! i =
         (if i \<in> set js
          then (if 8 \<le> LED_count t ! i + LED_add t ! i then 0 else LED_count t ! i + LED_add t ! i)
          else LED_count t ! i)" by simp
  from snoc.prems have nj: "j \<notin> set js" by simp
  show ?case
  proof (cases "i = j")
    case True
    with nj ih have "LED_count t' ! j = LED_count t ! j" by simp
    with True j fr show ?thesis by (simp add: tb doLoop_body_eq [OF j])
  next
    case False
    with j ih show ?thesis by (simp add: tb doLoop_body_eq [OF j])
  qed
qed

lemma doLoop_fold_level_other:
  assumes "\<forall>j \<in> set js. j < length (LED_count t)" and "\<forall>j \<in> set js. LED_Pins t ! j \<noteq> p"
  shows "pin_high (snd (foldl (\<lambda>tb j. doLoop_body j tb) (t, b) js)) p = pin_high b p"
  using assms
proof (induction js rule: rev_induct)
  case Nil
  show ?case by simp
next
  case (snoc j js)
  obtain t' b' where tb: "foldl (\<lambda>tb j. doLoop_body j tb) (t, b) js = (t', b')"
    by (cases "foldl (\<lambda>tb j. doLoop_body j tb) (t, b) js")
  from snoc.prems have js: "\<forall>j \<in> set js. j < length (LED_count t)" by simp
  from doLoop_fold_frame [OF js, of b] tb
  have fr: "LED_Pins t' = LED_Pins t" "length (LED_count t') = length (LED_count t)" by simp_all
  from snoc.prems fr have j: "j < length (LED_count t')" by simp
  from snoc tb have ih: "pin_high b' p = pin_high b p" by simp
  from snoc.prems have "LED_Pins t ! j \<noteq> p" by simp
  with ih fr show ?case by (simp add: tb doLoop_body_eq [OF j])
qed

lemma doLoop_fold_level:
  assumes "\<forall>j \<in> set js. j < length (LED_count t)" and "distinct js"
    and "i < length (LED_count t)"
    and "\<forall>j \<in> set js. j \<noteq> i \<longrightarrow> LED_Pins t ! j \<noteq> LED_Pins t ! i"
  shows "pin_high (snd (foldl (\<lambda>tb j. doLoop_body j tb) (t, b) js)) (LED_Pins t ! i) =
         (if i \<in> set js \<and> 8 \<le> LED_count t ! i + LED_add t ! i
          then \<not> pin_high b (LED_Pins t ! i) else pin_high b (LED_Pins t ! i))"
  using assms
proof (induction js rule: rev_induct)
  case Nil
  show ?case by simp
next
  case (snoc j js)
  obtain t' b' where tb: "foldl (\<lambda>tb j. doLoop_body j tb) (t, b) js = (t', b')"
    by (cases "foldl (\<lambda>tb j. doLoop_body j tb) (t, b) js")
  from snoc.prems have js: "\<forall>j \<in> set js. j < length (LED_count t)" by simp
  from doLoop_fold_frame [OF js, of b] tb
  have fr: "LED_Pins t' = LED_Pins t" "LED_add t' = LED_add t"
    "length (LED_count t') = length (LED_count t)" by simp_all
  from snoc.prems fr have j: "j < length (LED_count t')" by simp
  from snoc.prems have nj: "j \<notin> set js" and djs: "distinct js" by simp_all
  from snoc tb have ih: "pin_high b' (LED_Pins t ! i) =
         (if i \<in> set js \<and> 8 \<le> LED_count t ! i + LED_add t ! i
          then \<not> pin_high b (LED_Pins t ! i) else pin_high b (LED_Pins t ! i))" by simp
  show ?case
  proof (cases "i = j")
    case True
    from doLoop_fold_count [OF js djs snoc.prems(3), of b] tb nj True
    have "LED_count t' ! j = LED_count t ! j" by simp
    with True nj ih fr show ?thesis by (simp add: tb doLoop_body_eq [OF j])
  next
    case False
    with snoc.prems have "LED_Pins t ! j \<noteq> LED_Pins t ! i" by simp
    with False ih fr show ?thesis by (simp add: tb doLoop_body_eq [OF j])
  qed
qed


lemma doLoop_foldl: "doLoop n tb = foldl (\<lambda>tb j. doLoop_body j tb) tb [0..<n]"
  by (simp add: doLoop_def for_loop_foldl)

lemma doLoop_frame:
  assumes "wf_toggler n t"
  shows "wf_toggler n (fst (doLoop n (t, b)))"
    and "LED_add (fst (doLoop n (t, b))) = LED_add t"
    and "LED_Pins (fst (doLoop n (t, b))) = LED_Pins t"
    and "numDerivedPins (fst (doLoop n (t, b))) = numDerivedPins t"
    and "pin_mode (snd (doLoop n (t, b))) = pin_mode b"
    and "TCCR1A (snd (doLoop n (t, b))) = TCCR1A b"
    and "TCCR1B (snd (doLoop n (t, b))) = TCCR1B b"
    and "TCNT1 (snd (doLoop n (t, b))) = TCNT1 b"
    and "TIMSK1 (snd (doLoop n (t, b))) = TIMSK1 b"
    and "interrupts_enabled (snd (doLoop n (t, b))) = interrupts_enabled b"
proof -
  from assms have "\<forall>j \<in> set [0..<n]. j < length (LED_count t)"
    by (simp add: wf_toggler_def)
  from doLoop_fold_frame [OF this, of b] assms
  show "wf_toggler n (fst (doLoop n (t, b)))"
    and "LED_add (fst (doLoop n (t, b))) = LED_add t"
    and "LED_Pins (fst (doLoop n (t, b))) = LED_Pins t"
    and "numDerivedPins (fst (doLoop n (t, b))) = numDerivedPins t"
    and "pin_mode (snd (doLoop n (t, b))) = pin_mode b"
    and "TCCR1A (snd (doLoop n (t, b))) = TCCR1A b"
    and "TCCR1B (snd (doLoop n (t, b))) = TCCR1B b"
    and "TCNT1 (snd (doLoop n (t, b))) = TCNT1 b"
    and "TIMSK1 (snd (doLoop n (t, b))) = TIMSK1 b"
    and "interrupts_enabled (snd (doLoop n (t, b))) = interrupts_enabled b"
    by (simp_all add: doLoop_foldl wf_toggler_def)
qed

lemma doLoop_count:
  assumes "wf_toggler n t" and "i < n"
  shows "LED_count (fst (doLoop n (t, b))) ! i =
         (if 8 \<le> LED_count t ! i + LED_add t ! i then 0 else LED_count t ! i + LED_add t ! i)"
proof -
  from assms have "\<forall>j \<in> set [0..<n]. j < length (LED_count t)" "i < length (LED_count t)"
    by (simp_all add: wf_toggler_def)
  from doLoop_fold_count [OF this(1) _ this(2), of b] assms(2)
  show ?thesis by (simp add: doLoop_foldl)
qed

lemma doLoop_level:
  assumes "wf_toggler n t" and "i < n" and "sole_driver t i"
  shows "pin_high (snd (doLoop n (t, b))) (LED_Pins t ! i) =
         (if 8 \<le> LED_count t ! i + LED_add t ! i
          then \<not> pin_high b (LED_Pins t ! i) else pin_high b (LED_Pins t ! i))"
proof -
  from assms have a: "\<forall>j \<in> set [0..<n]. j < length (LED_count t)" "i < length (LED_count t)"
    by (simp_all add: wf_toggler_def)
  from assms have "\<forall>j \<in> set [0..<n]. j \<noteq> i \<longrightarrow> LED_Pins t ! j \<noteq> LED_Pins t ! i"
    by (simp add: wf_toggler_def sole_driver_def)
  from doLoop_fold_level [OF a(1) _ a(2) this, of b] assms(2)
  show ?thesis by (simp add: doLoop_foldl)
qed

lemma doLoop_level_other:
  assumes "wf_toggler n t" and "p \<notin> set (LED_Pins t)"
  shows "pin_high (snd (doLoop n (t, b))) p = pin_high b p"
proof -
  from assms have a: "\<forall>j \<in> set [0..<n]. j < length (LED_count t)"
    by (simp add: wf_toggler_def)
  from assms have "\<forall>j \<in> set [0..<n]. LED_Pins t ! j \<noteq> p"
    by (auto simp: wf_toggler_def)
  from doLoop_fold_level_other [OF a this, of b]
  show ?thesis by (simp add: doLoop_foldl)
qed

lemma uint8_add_exact:
  fixes c a :: uint8_t
  assumes "unat c < 8" and "unat a \<le> 8"
  shows "unat (c + a) = unat c + unat a"
proof -
  from assms have "unat c + unat a < 2 ^ LENGTH(8)" by simp
  then show ?thesis by (simp only: unat_add_lem)
qed

lemma uint8_ge_8: "(8 \<le> (w :: uint8_t)) = (8 \<le> unat w)"
  by (simp add: word_le_nat_alt)

lemma doLoop_slot_spec:
  assumes "wf_toggler n t" and "i < n" and "sole_driver t i"
    and "unat (LED_count t ! i) < 8" and "unat (LED_add t ! i) \<le> 8"
  shows "(unat (LED_count (fst (doLoop n (t, b))) ! i),
          pin_high (snd (doLoop n (t, b))) (LED_Pins t ! i)) =
         slot_step_spec (unat (LED_add t ! i))
           (unat (LED_count t ! i), pin_high b (LED_Pins t ! i))"
  using uint8_add_exact [OF assms(4,5)]
  by (simp add: doLoop_count [OF assms(1,2)] doLoop_level [OF assms(1,2,3)]
      slot_step_spec_def PHASE_MAX_def uint8_ge_8)

lemma slot_step_spec_bound: "fst (slot_step_spec a (c, l)) < 8"
  by (simp add: slot_step_spec_def PHASE_MAX_def)


lemma doLoop_iter_slot:
  assumes "wf_toggler n t" and "i < n" and "sole_driver t i"
    and "unat (LED_count t ! i) < 8" and "unat (LED_add t ! i) \<le> 8"
  shows "wf_toggler n (fst ((doLoop n ^^ k) (t, b))) \<and>
         LED_add (fst ((doLoop n ^^ k) (t, b))) = LED_add t \<and>
         LED_Pins (fst ((doLoop n ^^ k) (t, b))) = LED_Pins t \<and>
         (unat (LED_count (fst ((doLoop n ^^ k) (t, b))) ! i),
          pin_high (snd ((doLoop n ^^ k) (t, b))) (LED_Pins t ! i)) =
         (slot_step_spec (unat (LED_add t ! i)) ^^ k)
           (unat (LED_count t ! i), pin_high b (LED_Pins t ! i))"
proof (induction k)
  case 0
  from assms show ?case by simp
next
  case (Suc k)
  obtain t' b' where tb: "(doLoop n ^^ k) (t, b) = (t', b')"
    by (cases "(doLoop n ^^ k) (t, b)")
  from Suc tb have ih: "wf_toggler n t'" "LED_add t' = LED_add t" "LED_Pins t' = LED_Pins t"
    "(unat (LED_count t' ! i), pin_high b' (LED_Pins t ! i)) =
       (slot_step_spec (unat (LED_add t ! i)) ^^ k) (unat (LED_count t ! i), pin_high b (LED_Pins t ! i))"
    by simp_all
  from ih(3) assms(3) have sd: "sole_driver t' i" by (simp add: sole_driver_def)
  have "unat (LED_count t' ! i) < 8"
  proof (cases k)
    case 0
    with ih(4) assms(4) show ?thesis by simp
  next
    case (Suc m)
    obtain c l where cl: "(slot_step_spec (unat (LED_add t ! i)) ^^ m)
        (unat (LED_count t ! i), pin_high b (LED_Pins t ! i)) = (c, l)"
      by (cases "(slot_step_spec (unat (LED_add t ! i)) ^^ m)
        (unat (LED_count t ! i), pin_high b (LED_Pins t ! i))")
    from ih(4) Suc cl have "unat (LED_count t' ! i) = fst (slot_step_spec (unat (LED_add t ! i)) (c, l))"
      by (simp add: prod_eq_iff)
    then show ?thesis by (simp only: slot_step_spec_bound)
  qed
  from doLoop_slot_spec [OF ih(1) assms(2) sd this, of b'] assms(5) ih(2,3)
  have "(unat (LED_count (fst (doLoop n (t', b'))) ! i),
          pin_high (snd (doLoop n (t', b'))) (LED_Pins t ! i)) =
         slot_step_spec (unat (LED_add t ! i))
           (unat (LED_count t' ! i), pin_high b' (LED_Pins t ! i))" by simp
  with ih(4) doLoop_frame(1,2,3) [OF ih(1), of b'] ih(2,3)
  show ?case by (simp add: tb)
qed

lemma FLASHRATE_value_uint8:
  "unat (word_of_int (FLASHRATE_value rate) :: uint8_t) = nat (FLASHRATE_value rate)"
  by (cases rate) simp_all

lemma FLASHRATE_value_le: "nat (FLASHRATE_value rate) \<le> 8"
  by (cases rate) simp_all

lemma inversions_spec:
  "inversions (map (\<lambda>j. snd ((slot_step_spec (nat (FLASHRATE_value rate)) ^^ j) (0, l))) [0..<Suc 8])
     = nat (FLASHRATE_value rate)"
  by (cases rate; cases l) (simp_all add: slot_step_spec_def PHASE_MAX_def upt_rec eval_nat_numeral)

lemma slot_step_spec_MAX: "(slot_step_spec 8 ^^ k) (0, l) = (0, if even k then l else \<not> l)"
  by (induction k) (simp_all add: slot_step_spec_def PHASE_MAX_def)

lemma slot_step_spec_OFF: "(slot_step_spec 0 ^^ k) (0, l) = (0, l)"
  by (induction k) (simp_all add: slot_step_spec_def PHASE_MAX_def)


subsection \<open>Toggles per eight ticks\<close>

text \<open>
  Claim C1, amended. For every rate in OFF, SLOW, MEDIUM, FAST, MAX (increments 0, 1, 2,
  4, 8): for every pin slot whose phase is 0, whose increment is that rate and which is the
  only slot driving its pin, the levels of the pin observed over 8 consecutive runs of
  \<^verbatim>\<open>doLoop\<close> show exactly rate inversions. With MAX the level is inverted by every
  tick, and with OFF it stays at its initial level (LOW after \<^verbatim>\<open>init\<close>) for any number
  of ticks.
\<close>

theorem toggles_per_eight_ticks:
  assumes "wf_toggler numPins t" and "i < numPins" and "sole_driver t i"
    and "LED_count t ! i = 0" and "LED_add t ! i = word_of_int (FLASHRATE_value rate)"
  shows "inversions (level_trace numPins 8 (t, b) (LED_Pins t ! i)) = nat (FLASHRATE_value rate) \<and>
         (rate = MAX_RATE \<longrightarrow>
            (\<forall>k. pin_high (snd ((doLoop numPins ^^ Suc k) (t, b))) (LED_Pins t ! i) =
                 (\<not> pin_high (snd ((doLoop numPins ^^ k) (t, b))) (LED_Pins t ! i)))) \<and>
         (rate = OFF \<longrightarrow>
            (\<forall>k. pin_high (snd ((doLoop numPins ^^ k) (t, b))) (LED_Pins t ! i) =
                 pin_high b (LED_Pins t ! i)))"
proof -
  let ?p = "LED_Pins t ! i"
  let ?r = "nat (FLASHRATE_value rate)"
  from assms(4) have c: "unat (LED_count t ! i) < 8" by simp
  from assms(5) have a: "unat (LED_add t ! i) = ?r"
    by (simp only: FLASHRATE_value_uint8)
  with FLASHRATE_value_le [of rate] have a8: "unat (LED_add t ! i) \<le> 8" by simp
  have iter: "pin_high (snd ((doLoop numPins ^^ k) (t, b))) ?p =
              snd ((slot_step_spec ?r ^^ k) (0, pin_high b ?p))" for k
    using doLoop_iter_slot [OF assms(1,2,3) c a8, of k b] a assms(4)
    by (simp add: prod_eq_iff)
  have "level_trace numPins 8 (t, b) ?p =
        map (\<lambda>j. snd ((slot_step_spec ?r ^^ j) (0, pin_high b ?p))) [0..<Suc 8]"
    unfolding level_trace_def by (simp only: iter)
  then have one: "inversions (level_trace numPins 8 (t, b) ?p) = ?r"
    by (simp only: inversions_spec)
  have two: "pin_high (snd ((doLoop numPins ^^ Suc k) (t, b))) ?p =
             (\<not> pin_high (snd ((doLoop numPins ^^ k) (t, b))) ?p)" if "rate = MAX_RATE" for k
    using that by (simp only: iter) (simp add: slot_step_spec_MAX slot_step_spec_def PHASE_MAX_def)
  have three: "pin_high (snd ((doLoop numPins ^^ k) (t, b))) ?p = pin_high b ?p"
    if "rate = OFF" for k
    using that by (simp only: iter) (simp add: slot_step_spec_OFF)
  from one two three show ?thesis by blast
qed

text \<open>
  The theorem at the middle slot of three pins 13, 18, 19 with rate MEDIUM: two
  inversions.
\<close>

theorem toggles_per_eight_ticks_witness:
  "wf_toggler 3 \<lparr>numDerivedPins = 3, LED_Pins = [13, 18, 19],
                  LED_count = [0, 0, 0], LED_add = [0, 2, 0]\<rparr> \<and>
   (1 :: nat) < 3 \<and>
   sole_driver \<lparr>numDerivedPins = 3, LED_Pins = [13, 18, 19],
                 LED_count = [0, 0, 0], LED_add = [0, 2, 0]\<rparr> 1 \<and>
   inversions (level_trace 3 8
     (\<lparr>numDerivedPins = 3, LED_Pins = [13, 18, 19], LED_count = [0, 0, 0], LED_add = [0, 2, 0]\<rparr>,
      hw power_on) 18) = 2"
proof -
  let ?t = "\<lparr>numDerivedPins = 3, LED_Pins = [13, 18, 19], LED_count = [0, 0, 0], LED_add = [0, 2, 0]\<rparr>"
  have h1: "wf_toggler 3 ?t" by (simp add: wf_toggler_def)
  have h2: "(1 :: nat) < 3" by simp
  have h3: "sole_driver ?t 1" by code_simp
  from toggles_per_eight_ticks [OF h1 h2 h3, of MEDIUM "hw power_on"] h1 h2 h3
  show ?thesis by simp
qed

text \<open>
  Claim C1 as stated, without the condition on the pin, fails when two slots hold the
  same pin: after \<^verbatim>\<open>init\<close> with the pins 13, 13 and \<^verbatim>\<open>setFlashRate(1, MAX)\<close>, slot 0 has phase
  0 and rate OFF, yet its pin is high after the first tick and shows 8 inversions over 8
  ticks, not 0.
\<close>

theorem toggles_per_eight_ticks_shared_pin_counterexample:
  "p_instance shared_pin_system = Some shared_pin_toggler \<and>
   wf_toggler 2 shared_pin_toggler \<and>
   LED_Pins shared_pin_toggler ! 0 = 13 \<and>
   LED_count shared_pin_toggler ! 0 = 0 \<and>
   LED_add shared_pin_toggler ! 0 = word_of_int (FLASHRATE_value OFF) \<and>
   \<not> pin_high (hw shared_pin_system) 13 \<and>
   pin_high (snd (doLoop 2 (shared_pin_toggler, hw shared_pin_system))) 13 \<and>
   inversions (level_trace 2 8 (shared_pin_toggler, hw shared_pin_system) 13) = 8 \<and>
   inversions (level_trace 2 8 (shared_pin_toggler, hw shared_pin_system) 13)
     \<noteq> nat (FLASHRATE_value OFF)"
  by code_simp

subsection \<open>The example states\<close>

lemma three_pin_instance:
  "p_instance three_pin_system =
     Some \<lparr>numDerivedPins = 3, LED_Pins = [13, 18, 19], LED_count = [0, 0, 0], LED_add = [0, 0, 0]\<rparr>"
  by code_simp

lemma power_on_instance: "p_instance power_on = None"
  by (simp add: power_on_def)

subsection \<open>One tick\<close>

text \<open>
  Claim C2. One run of \<^verbatim>\<open>doLoop\<close> performs the slot operation for the slots 0, 1, ...,
  numPins - 1 in this order. The operation on slot i adds the increment to the phase (an
  addition of \<^verbatim>\<open>uint8_t\<close>); when the sum is at least 8 it stores 0 as the phase and writes
  the complement of the pin's level to the pin, otherwise it stores the sum and leaves the
  board as it is; nothing else changes. After the whole run the phase of every slot is the
  value its operation stored, and the level of a pin driven by one slot only is inverted
  exactly when that slot's sum reached 8.
\<close>

theorem doLoop_step:
  assumes "wf_toggler numPins t" and "i < numPins"
  shows "doLoop numPins (t, b) = foldl (\<lambda>tb j. doLoop_body j tb) (t, b) [0..<numPins] \<and>
         doLoop_body i (t, b) =
           (t\<lparr>LED_count := (LED_count t)[i :=
                 (if 8 \<le> LED_count t ! i + LED_add t ! i then 0
                  else LED_count t ! i + LED_add t ! i)]\<rparr>,
            if 8 \<le> LED_count t ! i + LED_add t ! i
            then b\<lparr>pin_high := (pin_high b)(LED_Pins t ! i := \<not> pin_high b (LED_Pins t ! i))\<rparr>
            else b) \<and>
         LED_count (fst (doLoop numPins (t, b))) ! i =
           (if 8 \<le> LED_count t ! i + LED_add t ! i then 0
            else LED_count t ! i + LED_add t ! i) \<and>
         (sole_driver t i \<longrightarrow>
            pin_high (snd (doLoop numPins (t, b))) (LED_Pins t ! i) =
              (if 8 \<le> LED_count t ! i + LED_add t ! i
               then \<not> pin_high b (LED_Pins t ! i) else pin_high b (LED_Pins t ! i)))"
proof -
  from assms have i: "i < length (LED_count t)" by (simp add: wf_toggler_def)
  show ?thesis
    using doLoop_foldl [of numPins "(t, b)"] doLoop_body_eq [OF i, of b]
      doLoop_count [OF assms, of b] doLoop_level [OF assms, of b]
    by blast
qed

text \<open>
  The theorem at three slots with the pins 13, 18, 19, phases 0, 6, 7 and increments
  0, 2, 8, for slot 1: its phase 6 + 2 reaches 8, is reset, and pin 18 goes high.
\<close>

theorem doLoop_step_witness:
  "wf_toggler 3 \<lparr>numDerivedPins = 3, LED_Pins = [13, 18, 19],
                  LED_count = [0, 6, 7], LED_add = [0, 2, 8]\<rparr> \<and>
   (1 :: nat) < 3 \<and>
   sole_driver \<lparr>numDerivedPins = 3, LED_Pins = [13, 18, 19],
                 LED_count = [0, 6, 7], LED_add = [0, 2, 8]\<rparr> 1 \<and>
   LED_count (fst (doLoop 3
     (\<lparr>numDerivedPins = 3, LED_Pins = [13, 18, 19], LED_count = [0, 6, 7], LED_add = [0, 2, 8]\<rparr>,
      hw power_on))) ! 1 = 0 \<and>
   pin_high (snd (doLoop 3
     (\<lparr>numDerivedPins = 3, LED_Pins = [13, 18, 19], LED_count = [0, 6, 7], LED_add = [0, 2, 8]\<rparr>,
      hw power_on))) 18"
proof -
  let ?t = "\<lparr>numDerivedPins = 3, LED_Pins = [13, 18, 19], LED_count = [0, 6, 7], LED_add = [0, 2, 8]\<rparr>"
  have h1: "wf_toggler 3 ?t" by (simp add: wf_toggler_def)
  have h2: "(1 :: nat) < 3" by simp
  have h3: "sole_driver ?t 1" by code_simp
  have h4: "\<not> pin_high (hw power_on) 18" by (simp add: power_on_def)
  from doLoop_step [OF h1 h2, of "hw power_on", THEN conjunct2, THEN conjunct2] h1 h2 h3 h4
  show ?thesis by simp
qed

subsection \<open>\<^verbatim>\<open>setFlashRate\<close>\<close>

text \<open>
  Claim C4. \<^verbatim>\<open>setFlashRate\<close> returns -1 (not initialised) when there is no instance, -2
  (shape mismatch) when the instance was created with another pin count than the caller's
  template argument, -3 (index out of range) when the index is not below the pin count,
  and 0 otherwise; whenever the value returned is not 0 the state, with every slot's phase,
  increment and pin, is the state before the call.
\<close>

theorem setFlashRate_result:
  "(p_instance s = None \<longrightarrow> setFlashRate numPins LED rate s = (- 1, s)) \<and>
   (\<forall>t. p_instance s = Some t \<and> numDerivedPins t \<noteq> numPins \<longrightarrow>
        setFlashRate numPins LED rate s = (- 2, s)) \<and>
   (\<forall>t. p_instance s = Some t \<and> numDerivedPins t = numPins \<and> LED \<ge> numPins \<longrightarrow>
        setFlashRate numPins LED rate s = (- 3, s)) \<and>
   (\<forall>t. p_instance s = Some t \<and> numDerivedPins t = numPins \<and> LED < numPins \<longrightarrow>
        fst (setFlashRate numPins LED rate s) = 0) \<and>
   (fst (setFlashRate numPins LED rate s) \<noteq> 0 \<longrightarrow> snd (setFlashRate numPins LED rate s) = s)"
  by (auto simp: setFlashRate_def split: option.splits)


text \<open>
  The four cases of the theorem: before \<^verbatim>\<open>init\<close>, and after \<^verbatim>\<open>init\<close> with three pins for
  a caller with template argument 2, for index 3 and for index 1.
\<close>

theorem setFlashRate_result_witness:
  "p_instance power_on = None \<and>
   setFlashRate 3 0 SLOW power_on = (- 1, power_on) \<and>
   setFlashRate 2 0 SLOW three_pin_system = (- 2, three_pin_system) \<and>
   setFlashRate 3 3 SLOW three_pin_system = (- 3, three_pin_system) \<and>
   fst (setFlashRate 3 1 SLOW three_pin_system) = 0"
  using setFlashRate_result [of power_on 3 0 SLOW]
    setFlashRate_result [of three_pin_system 2 0 SLOW]
    setFlashRate_result [of three_pin_system 3 3 SLOW]
    setFlashRate_result [of three_pin_system 3 1 SLOW]
  by (simp add: three_pin_instance power_on_instance)

text \<open>
  Claim C10. The checks of \<^verbatim>\<open>setFlashRate\<close> have a fixed precedence: with no instance
  the result is -1 whatever the template argument and the index are; with an instance of
  another pin count it is -2 whatever the index is; and -3 is returned exactly when an
  instance exists, its pin count is the caller's, and the index is not below it.
\<close>

theorem setFlashRate_precedence:
  "(p_instance s = None \<longrightarrow> (\<forall>numPins LED rate. fst (setFlashRate numPins LED rate s) = - 1)) \<and>
   (\<forall>t. p_instance s = Some t \<longrightarrow>
      (\<forall>numPins LED rate. numDerivedPins t \<noteq> numPins \<longrightarrow>
         fst (setFlashRate numPins LED rate s) = - 2)) \<and>
   (\<forall>numPins LED rate.
      (fst (setFlashRate numPins LED rate s) = - 3) =
      (\<exists>t. p_instance s = Some t \<and> numDerivedPins t = numPins \<and> numPins \<le> LED))"
  by (auto simp: setFlashRate_def split: option.splits)

text \<open>
  Calls where several conditions hold at once: no instance and an index out of range;
  a wrong pin count and an index out of range for both counts.
\<close>

theorem setFlashRate_precedence_witness:
  "p_instance power_on = None \<and>
   fst (setFlashRate 3 7 FAST power_on) = - 1 \<and>
   fst (setFlashRate 2 7 FAST three_pin_system) = - 2 \<and>
   fst (setFlashRate 3 7 FAST three_pin_system) = - 3"
  using setFlashRate_precedence [of power_on] setFlashRate_precedence [of three_pin_system]
  by (simp add: three_pin_instance power_on_instance)

text \<open>
  Claim C8. \<^verbatim>\<open>setFlashRate\<close> is idempotent: a second call with the same arguments
  returns the same value and leaves the state of the first call; no call changes a phase,
  so every later run of the program is the same after two calls as after one.
\<close>

theorem setFlashRate_idempotent:
  "setFlashRate numPins LED rate (snd (setFlashRate numPins LED rate s)) =
     setFlashRate numPins LED rate s \<and>
   map_option LED_count (p_instance (snd (setFlashRate numPins LED rate s))) =
     map_option LED_count (p_instance s) \<and>
   exec es (snd (setFlashRate numPins LED rate (snd (setFlashRate numPins LED rate s)))) =
     exec es (snd (setFlashRate numPins LED rate s))"
  by (auto simp: setFlashRate_def split: option.splits)

subsection \<open>Frame of \<^verbatim>\<open>setFlashRate\<close> and of \<^verbatim>\<open>doLoop\<close>\<close>

text \<open>
  Claim C7. A call of \<^verbatim>\<open>setFlashRate\<close> that returns 0 stores the rate as the increment
  of the slot addressed and changes nothing else: the other increments, all phases, all
  pins, the pin count and the whole board (every pin level with it) are as before.
  Conversely \<^verbatim>\<open>doLoop\<close> leaves every increment and every pin of the object as it is; on
  the board it changes nothing but levels, and only of pins held by the object.
\<close>

theorem setFlashRate_doLoop_frame:
  assumes "p_instance s = Some t" and "wf_toggler (numDerivedPins t) t"
    and "fst (setFlashRate numPins LED rate s) = 0"
  shows "(\<exists>t'. snd (setFlashRate numPins LED rate s) = \<lparr>p_instance = Some t', hw = hw s\<rparr> \<and>
            LED_add t' ! LED = word_of_int (FLASHRATE_value rate) \<and>
            (\<forall>j. j \<noteq> LED \<longrightarrow> LED_add t' ! j = LED_add t ! j) \<and>
            length (LED_add t') = length (LED_add t) \<and>
            LED_count t' = LED_count t \<and> LED_Pins t' = LED_Pins t \<and>
            numDerivedPins t' = numDerivedPins t) \<and>
         LED_add (fst (doLoop (numDerivedPins t) (t, b))) = LED_add t \<and>
         LED_Pins (fst (doLoop (numDerivedPins t) (t, b))) = LED_Pins t \<and>
         numDerivedPins (fst (doLoop (numDerivedPins t) (t, b))) = numDerivedPins t \<and>
         (snd (doLoop (numDerivedPins t) (t, b)))
           \<lparr>pin_high := pin_high b\<rparr> = b \<and>
         (\<forall>p. p \<notin> set (LED_Pins t) \<longrightarrow>
              pin_high (snd (doLoop (numDerivedPins t) (t, b))) p = pin_high b p)"
proof -
  from assms(1,3) have ok: "numDerivedPins t = numPins" "LED < numPins"
    by (auto simp: setFlashRate_def split: if_splits)
  with assms(2) have len: "LED < length (LED_add t)" by (simp add: wf_toggler_def)
  let ?t' = "t\<lparr>LED_add := (LED_add t)[LED := word_of_int (FLASHRATE_value rate)]\<rparr>"
  from assms(1) ok have "snd (setFlashRate numPins LED rate s) = \<lparr>p_instance = Some ?t', hw = hw s\<rparr>"
    by (simp add: setFlashRate_def)
  moreover from len have "LED_add ?t' ! LED = word_of_int (FLASHRATE_value rate)" by simp
  moreover have "\<forall>j. j \<noteq> LED \<longrightarrow> LED_add ?t' ! j = LED_add t ! j" by simp
  ultimately have one: "\<exists>t'. snd (setFlashRate numPins LED rate s) = \<lparr>p_instance = Some t', hw = hw s\<rparr> \<and>
            LED_add t' ! LED = word_of_int (FLASHRATE_value rate) \<and>
            (\<forall>j. j \<noteq> LED \<longrightarrow> LED_add t' ! j = LED_add t ! j) \<and>
            length (LED_add t') = length (LED_add t) \<and>
            LED_count t' = LED_count t \<and> LED_Pins t' = LED_Pins t \<and>
            numDerivedPins t' = numDerivedPins t"
    by (intro exI [of _ ?t']) simp
  note fr = doLoop_frame [OF assms(2), of b]
  have two: "(snd (doLoop (numDerivedPins t) (t, b)))\<lparr>pin_high := pin_high b\<rparr> = b"
    by (rule board.equality) (simp_all add: fr)
  from one fr(2,3,4) two doLoop_level_other [OF assms(2), of _ b]
  show ?thesis by blast
qed

text \<open>
  The theorem after \<^verbatim>\<open>init\<close> with the pins 13, 18, 19, for \<^verbatim>\<open>setFlashRate(1, MEDIUM)\<close>:
  only the increment of slot 1 changes, to 2.
\<close>

theorem setFlashRate_doLoop_frame_witness:
  "p_instance three_pin_system =
     Some \<lparr>numDerivedPins = 3, LED_Pins = [13, 18, 19], LED_count = [0, 0, 0], LED_add = [0, 0, 0]\<rparr> \<and>
   fst (setFlashRate 3 1 MEDIUM three_pin_system) = 0 \<and>
   snd (setFlashRate 3 1 MEDIUM three_pin_system) =
     \<lparr>p_instance = Some \<lparr>numDerivedPins = 3, LED_Pins = [13, 18, 19],
                          LED_count = [0, 0, 0], LED_add = [0, 2, 0]\<rparr>,
      hw = hw three_pin_system\<rparr> \<and>
   LED_add (fst (doLoop 3
     (\<lparr>numDerivedPins = 3, LED_Pins = [13, 18, 19], LED_count = [0, 0, 0], LED_add = [0, 0, 0]\<rparr>,
      hw three_pin_system))) = [0, 0, 0]"
proof -
  let ?t = "\<lparr>numDerivedPins = 3, LED_Pins = [13, 18, 19], LED_count = [0, 0, 0], LED_add = [0, 0, 0]\<rparr>"
  have h2: "wf_toggler (numDerivedPins ?t) ?t" by (simp add: wf_toggler_def)
  have h3: "fst (setFlashRate 3 1 MEDIUM three_pin_system) = 0"
    by (simp add: setFlashRate_def three_pin_instance)
  have h4: "snd (setFlashRate 3 1 MEDIUM three_pin_system) =
     \<lparr>p_instance = Some \<lparr>numDerivedPins = 3, LED_Pins = [13, 18, 19],
                          LED_count = [0, 0, 0], LED_add = [0, 2, 0]\<rparr>,
      hw = hw three_pin_system\<rparr>"
    by (simp add: setFlashRate_def three_pin_instance)
  from setFlashRate_doLoop_frame [OF three_pin_instance h2 h3, of "hw three_pin_system"]
    three_pin_instance h3 h4
  show ?thesis by simp
qed

subsection \<open>\<^verbatim>\<open>init\<close>\<close>

lemma setupSingleton_body_eq:
  "setupSingleton_body pins i (t, b) =
     (t\<lparr>LED_Pins := (LED_Pins t)[i := pins ! i]\<rparr>,
      b\<lparr>pin_mode := (pin_mode b)(pins ! i := OUTPUT),
        pin_high := (pin_high b)(pins ! i := False)\<rparr>)"
  by (simp add: setupSingleton_body_def digitalWrite_def pinMode_def LOW_def)

lemma setupSingleton_fold:
  assumes "\<forall>j \<in> set js. j < length (LED_Pins t)"
  shows "numDerivedPins (fst (foldl (\<lambda>tb j. setupSingleton_body pins j tb) (t, b) js)) =
           numDerivedPins t \<and>
         LED_count (fst (foldl (\<lambda>tb j. setupSingleton_body pins j tb) (t, b) js)) = LED_count t \<and>
         LED_add (fst (foldl (\<lambda>tb j. setupSingleton_body pins j tb) (t, b) js)) = LED_add t \<and>
         length (LED_Pins (fst (foldl (\<lambda>tb j. setupSingleton_body pins j tb) (t, b) js))) =
           length (LED_Pins t) \<and>
         (\<forall>i. LED_Pins (fst (foldl (\<lambda>tb j. setupSingleton_body pins j tb) (t, b) js)) ! i =
              (if i \<in> set js then pins ! i else LED_Pins t ! i)) \<and>
         (\<forall>j \<in> set js.
              pin_mode (snd (foldl (\<lambda>tb j. setupSingleton_body pins j tb) (t, b) js)) (pins ! j) = OUTPUT \<and>
              \<not> pin_high (snd (foldl (\<lambda>tb j. setupSingleton_body pins j tb) (t, b) js)) (pins ! j))"
  using assms
proof (induction js rule: rev_induct)
  case Nil
  show ?case by simp
next
  case (snoc j js)
  obtain t' b' where tb: "foldl (\<lambda>tb j. setupSingleton_body pins j tb) (t, b) js = (t', b')"
    by (cases "foldl (\<lambda>tb j. setupSingleton_body pins j tb) (t, b) js")
  from snoc tb have ih: "numDerivedPins t' = numDerivedPins t" "LED_count t' = LED_count t"
    "LED_add t' = LED_add t"
    "length (LED_Pins t') = length (LED_Pins t)"
    "\<forall>i. LED_Pins t' ! i = (if i \<in> set js then pins ! i else LED_Pins t ! i)"
    "\<forall>j \<in> set js. pin_mode b' (pins ! j) = OUTPUT \<and> \<not> pin_high b' (pins ! j)"
    by simp_all
  from snoc.prems ih(4) have j: "j < length (LED_Pins t')" by simp
  have c: "\<forall>i. (LED_Pins t')[j := pins ! j] ! i = (if i \<in> set (js @ [j]) then pins ! i else LED_Pins t ! i)"
    using ih(5) j by (simp add: nth_list_update)
  from c ih(1,2,3,4,6) show ?case
    by (simp add: tb setupSingleton_body_eq)
qed

lemma setup_timer_pins:
  "pin_mode (setup_timer b) = pin_mode b" "pin_high (setup_timer b) = pin_high b"
  by (simp_all add: setup_timer_def Let_def)

lemma setupSingleton_new:
  "\<exists>t b'. setupSingleton numPins pins (new_pinToggler numPins, b) = (t, b') \<and>
      wf_toggler numPins t \<and>
      LED_count t = replicate numPins 0 \<and> LED_add t = replicate numPins 0 \<and>
      (\<forall>i < numPins. LED_Pins t ! i = pins ! i \<and>
          pin_mode b' (pins ! i) = OUTPUT \<and> \<not> pin_high b' (pins ! i))"
proof -
  let ?n = "new_pinToggler numPins"
  obtain t b1 where tb:
    "foldl (\<lambda>tb j. setupSingleton_body pins j tb) (?n, b) [0..<numPins] = (t, b1)"
    by (cases "foldl (\<lambda>tb j. setupSingleton_body pins j tb) (?n, b) [0..<numPins]")
  have "\<forall>j \<in> set [0..<numPins]. j < length (LED_Pins ?n)"
    by (simp add: new_pinToggler_def)
  from setupSingleton_fold [OF this, of pins b] tb
  have f: "numDerivedPins t = numDerivedPins ?n" "LED_count t = LED_count ?n"
    "LED_add t = LED_add ?n" "length (LED_Pins t) = length (LED_Pins ?n)"
    "\<forall>i. LED_Pins t ! i = (if i \<in> set [0..<numPins] then pins ! i else LED_Pins ?n ! i)"
    "\<forall>j \<in> set [0..<numPins]. pin_mode b1 (pins ! j) = OUTPUT \<and> \<not> pin_high b1 (pins ! j)"
    by simp_all
  from f(1,2,3) have g: "numDerivedPins t = numPins" "LED_count t = replicate numPins 0"
    "LED_add t = replicate numPins 0"
    by (simp_all add: new_pinToggler_def)
  from f(4) g have wf: "wf_toggler numPins t"
    by (simp add: wf_toggler_def new_pinToggler_def)
  have "setupSingleton numPins pins (?n, b) = (t, setup_timer b1)"
    by (simp add: setupSingleton_def for_loop_foldl tb)
  with wf g f(5,6) show ?thesis by (simp add: setup_timer_pins)
qed

text \<open>
  Claim C6. After a call of \<^verbatim>\<open>init\<close> that finds no instance and is given \<^verbatim>\<open>numPins\<close>
  pins, there is an instance with \<^verbatim>\<open>numPins\<close> slots, and for every i below
  \<^verbatim>\<open>numPins\<close>: slot i holds pin i of the caller's array, that pin is an output at
  level LOW, and the phase and the increment of the slot are 0 (the rate OFF).
\<close>

theorem init_slots:
  assumes "p_instance s = None" and "length pins = numPins"
  shows "\<exists>t. p_instance (snd (init numPins pins s)) = Some t \<and> wf_toggler numPins t \<and>
           (\<forall>i < numPins.
               LED_Pins t ! i = pins ! i \<and>
               pin_mode (hw (snd (init numPins pins s))) (pins ! i) = OUTPUT \<and>
               \<not> pin_high (hw (snd (init numPins pins s))) (pins ! i) \<and>
               LED_count t ! i = 0 \<and>
               LED_add t ! i = word_of_int (FLASHRATE_value OFF))"
proof -
  from setupSingleton_new [of numPins pins "hw s"]
  obtain t b' where tb: "setupSingleton numPins pins (new_pinToggler numPins, hw s) = (t, b')"
    and wf: "wf_toggler numPins t"
    and z: "LED_count t = replicate numPins 0" "LED_add t = replicate numPins 0"
    and sl: "\<forall>i < numPins. LED_Pins t ! i = pins ! i \<and>
          pin_mode b' (pins ! i) = OUTPUT \<and> \<not> pin_high b' (pins ! i)"
    by blast
  from assms(1) tb have "snd (init numPins pins s) = \<lparr>p_instance = Some t, hw = b'\<rparr>"
    by (simp add: init_def)
  with wf z sl show ?thesis by simp
qed

text \<open>The theorem for \<^verbatim>\<open>init\<close> with the pins 13, 18, 19 on the state before \<^verbatim>\<open>init\<close>.\<close>

theorem init_slots_witness:
  "p_instance power_on = None \<and> length [13 :: uint8_t, 18, 19] = 3 \<and>
   (\<exists>t. p_instance (snd (init 3 [13, 18, 19] power_on)) = Some t \<and> wf_toggler 3 t \<and>
      LED_Pins t ! 2 = 19 \<and>
      pin_mode (hw (snd (init 3 [13, 18, 19] power_on))) 19 = OUTPUT \<and>
      \<not> pin_high (hw (snd (init 3 [13, 18, 19] power_on))) 19 \<and>
      LED_count t ! 2 = 0 \<and> LED_add t ! 2 = 0)"
proof -
  have h2: "length [13 :: uint8_t, 18, 19] = 3" by simp
  from init_slots [OF power_on_instance h2]
  obtain t where t: "p_instance (snd (init 3 [13, 18, 19] power_on)) = Some t" "wf_toggler 3 t"
    "\<forall>i < 3.
               LED_Pins t ! i = [13, 18, 19] ! i \<and>
               pin_mode (hw (snd (init 3 [13, 18, 19] power_on))) ([13, 18, 19] ! i) = OUTPUT \<and>
               \<not> pin_high (hw (snd (init 3 [13, 18, 19] power_on))) ([13, 18, 19] ! i) \<and>
               LED_count t ! i = 0 \<and>
               LED_add t ! i = word_of_int (FLASHRATE_value OFF)"
    by blast
  have "(2 :: nat) < 3" by simp
  from t(3) [rule_format, OF this] t(1,2) power_on_instance
  show ?thesis by simp
qed

subsection \<open>Runs: the phases stay below 8\<close>

lemma TIMER1_OVF_vect_inv:
  assumes "p_instance s = Some t" and "wf_toggler (numDerivedPins t) t"
  shows "\<exists>s' t'. TIMER1_OVF_vect s = Some s' \<and> p_instance s' = Some t' \<and>
           wf_toggler (numDerivedPins t') t' \<and> numDerivedPins t' = numDerivedPins t \<and>
           LED_add t' = LED_add t \<and> LED_Pins t' = LED_Pins t \<and>
           (\<forall>c \<in> set (LED_count t'). c < 8)"
proof -
  let ?n = "numDerivedPins t"
  let ?b = "(hw s)\<lparr>TCNT1 := timer1_counter\<rparr>"
  obtain t' b' where tb: "doLoop ?n (t, ?b) = (t', b')"
    by (cases "doLoop ?n (t, ?b)")
  from doLoop_frame(1,2,3,4) [OF assms(2), of ?b] tb
  have fr: "wf_toggler ?n t'" "LED_add t' = LED_add t" "LED_Pins t' = LED_Pins t"
    "numDerivedPins t' = ?n" by simp_all
  have "c < 8" if "c \<in> set (LED_count t')" for c
  proof -
    from that fr(1) obtain i where i: "i < ?n" "c = LED_count t' ! i"
      by (auto simp: in_set_conv_nth wf_toggler_def)
    from doLoop_count [OF assms(2) i(1), of ?b] tb i(2)
    have "c = (if 8 \<le> LED_count t ! i + LED_add t ! i then 0 else LED_count t ! i + LED_add t ! i)"
      by simp
    then show ?thesis by (simp split: if_splits)
  qed
  with fr assms(1) tb show ?thesis
    by (simp add: TIMER1_OVF_vect_def Let_def)
qed

lemma setFlashRate_inv:
  assumes "p_instance s = Some t" and "wf_toggler (numDerivedPins t) t"
  shows "\<exists>t'. p_instance (snd (setFlashRate numPins LED rate s)) = Some t' \<and>
           wf_toggler (numDerivedPins t') t' \<and> numDerivedPins t' = numDerivedPins t \<and>
           LED_count t' = LED_count t \<and> LED_Pins t' = LED_Pins t \<and>
           set (LED_add t') \<subseteq> insert (word_of_int (FLASHRATE_value rate)) (set (LED_add t))"
  using assms set_update_subset_insert [of "LED_add t" LED "word_of_int (FLASHRATE_value rate)"]
  by (auto simp: setFlashRate_def wf_toggler_def)

lemma exec_inv:
  assumes "\<forall>rate. word_of_int (FLASHRATE_value rate) \<in> R"
    and "p_instance s = Some t" and "wf_toggler (numDerivedPins t) t"
    and "\<forall>c \<in> set (LED_count t). c < 8" and "set (LED_add t) \<subseteq> R"
  shows "\<exists>s' t'. exec es s = Some s' \<and> p_instance s' = Some t' \<and>
           wf_toggler (numDerivedPins t') t' \<and>
           (\<forall>c \<in> set (LED_count t'). c < 8) \<and> set (LED_add t') \<subseteq> R"
  using assms(2-)
proof (induction es arbitrary: s t)
  case Nil
  then show ?case by simp
next
  case (Cons e es)
  show ?case
  proof (cases e)
    case Tick
    from TIMER1_OVF_vect_inv [OF Cons.prems(1,2)]
    obtain s1 t1 where s1: "TIMER1_OVF_vect s = Some s1" "p_instance s1 = Some t1"
      "wf_toggler (numDerivedPins t1) t1" "LED_add t1 = LED_add t"
      "\<forall>c \<in> set (LED_count t1). c < 8"
      by blast
    from s1(4) Cons.prems(4) have "set (LED_add t1) \<subseteq> R" by simp
    from Cons.IH [OF s1(2,3,5) this] s1(1) Tick show ?thesis by simp
  next
    case (SetRate numPins LED rate)
    from setFlashRate_inv [OF Cons.prems(1,2), of numPins LED rate]
    obtain t1 where t1: "p_instance (snd (setFlashRate numPins LED rate s)) = Some t1"
      "wf_toggler (numDerivedPins t1) t1" "LED_count t1 = LED_count t"
      "set (LED_add t1) \<subseteq> insert (word_of_int (FLASHRATE_value rate)) (set (LED_add t))"
      by blast
    from t1(4) Cons.prems(4) assms(1) have r: "set (LED_add t1) \<subseteq> R" by auto
    from t1(3) Cons.prems(3) have c: "\<forall>c \<in> set (LED_count t1). c < 8" by simp
    from Cons.IH [OF t1(1,2) c r] SetRate show ?thesis by simp
  qed
qed

lemma FLASHRATE_value_cases:
  "(word_of_int (FLASHRATE_value rate) :: uint8_t) \<in> {0, 1, 2, 4, 8}"
  by (cases rate) simp_all

text \<open>
  Claim C5. From a state in which every increment is one of 0, 1, 2, 4, 8 and every phase
  is 0, any sequence of timer ticks and calls of \<^verbatim>\<open>setFlashRate\<close> runs to a state in
  which every phase is below 8 (and every increment still one of the five values): so the
  phases are below 8 after every tick, however many ticks and calls came before it.
\<close>

theorem phase_below_PHASE_MAX:
  assumes "p_instance s = Some t" and "wf_toggler (numDerivedPins t) t"
    and "\<forall>c \<in> set (LED_count t). c = 0"
    and "\<forall>a \<in> set (LED_add t). a \<in> {0, 1, 2, 4, 8}"
  shows "\<exists>s' t'. exec es s = Some s' \<and> p_instance s' = Some t' \<and>
           (\<forall>c \<in> set (LED_count t'). unat c < PHASE_MAX) \<and>
           (\<forall>a \<in> set (LED_add t'). a \<in> {0, 1, 2, 4, 8})"
proof -
  from assms(3) have c: "\<forall>c \<in> set (LED_count t). c < 8" by auto
  from assms(4) have a: "set (LED_add t) \<subseteq> {0, 1, 2, 4, 8}" by blast
  from exec_inv [of "{0, 1, 2, 4, 8}", OF _ assms(1,2) c a, of es] FLASHRATE_value_cases
  obtain s' t' where r: "exec es s = Some s'" "p_instance s' = Some t'"
    "\<forall>c \<in> set (LED_count t'). c < 8" "set (LED_add t') \<subseteq> {0, 1, 2, 4, 8}"
    by blast
  from r(3) have "\<forall>c \<in> set (LED_count t'). unat c < PHASE_MAX"
    by (simp add: PHASE_MAX_def word_less_nat_alt)
  with r(1,2,4) show ?thesis by blast
qed


text \<open>
  The theorem for a run after \<^verbatim>\<open>init\<close> with three pins: two rate changes between seven
  ticks.
\<close>

theorem phase_below_PHASE_MAX_witness:
  "p_instance three_pin_system =
     Some \<lparr>numDerivedPins = 3, LED_Pins = [13, 18, 19], LED_count = [0, 0, 0], LED_add = [0, 0, 0]\<rparr> \<and>
   (\<exists>s' t'. exec [SetRate 3 1 MEDIUM, Tick, Tick, Tick, Tick, Tick, SetRate 3 0 MAX_RATE, Tick, Tick]
               three_pin_system = Some s' \<and>
            p_instance s' = Some t' \<and> (\<forall>c \<in> set (LED_count t'). unat c < PHASE_MAX))"
proof -
  let ?t = "\<lparr>numDerivedPins = 3, LED_Pins = [13, 18, 19], LED_count = [0, 0, 0], LED_add = [0, 0, 0]\<rparr>"
  have h2: "wf_toggler (numDerivedPins ?t) ?t" by (simp add: wf_toggler_def)
  have h3: "\<forall>c \<in> set (LED_count ?t). c = 0" by simp
  have h4: "\<forall>a \<in> set (LED_add ?t). a \<in> {0, 1, 2, 4, 8}" by simp
  from phase_below_PHASE_MAX [OF three_pin_instance h2 h3 h4] three_pin_instance
  show ?thesis by blast
qed

subsection \<open>The 8-bit addition is exact\<close>

text \<open>
  Claim C9. From a state in which every phase is below 8 and every increment at most 8
  (\<^verbatim>\<open>setFlashRate\<close> stores no other increments), any sequence of ticks and calls of
  \<^verbatim>\<open>setFlashRate\<close> runs to a state in which, for every slot, the sum of phase and
  increment is at most 15, the \<^verbatim>\<open>uint8_t\<close> addition of the next tick gives that sum
  without wrapping, and the phase the next tick stores is the one the step of the
  specification computes on mathematical integers.
\<close>

theorem uint8_addition_exact:
  assumes "p_instance s = Some t" and "wf_toggler (numDerivedPins t) t"
    and "\<forall>c \<in> set (LED_count t). c < 8"
    and "\<forall>a \<in> set (LED_add t). a \<le> 8"
  shows "\<exists>s' t'. exec es s = Some s' \<and> p_instance s' = Some t' \<and>
           (\<forall>i < numDerivedPins t'.
               unat (LED_count t' ! i) + unat (LED_add t' ! i) \<le> 15 \<and>
               unat (LED_count t' ! i + LED_add t' ! i) =
                 unat (LED_count t' ! i) + unat (LED_add t' ! i) \<and>
               unat (LED_count (fst (doLoop (numDerivedPins t') (t', b))) ! i) =
                 fst (slot_step_spec (unat (LED_add t' ! i)) (unat (LED_count t' ! i), l)))"
proof -
  have R: "\<forall>rate. (word_of_int (FLASHRATE_value rate) :: uint8_t) \<in> {a. a \<le> 8}"
  proof
    fix rate show "(word_of_int (FLASHRATE_value rate) :: uint8_t) \<in> {a. a \<le> 8}"
      by (cases rate) simp_all
  qed
  from assms(4) have a: "set (LED_add t) \<subseteq> {a. a \<le> 8}" by blast
  from exec_inv [OF R assms(1,2,3) a, of es]
  obtain s' t' where r: "exec es s = Some s'" "p_instance s' = Some t'"
    "wf_toggler (numDerivedPins t') t'"
    "\<forall>c \<in> set (LED_count t'). c < 8" "set (LED_add t') \<subseteq> {a. a \<le> 8}"
    by blast
  have "unat (LED_count t' ! i) + unat (LED_add t' ! i) \<le> 15 \<and>
        unat (LED_count t' ! i + LED_add t' ! i) =
          unat (LED_count t' ! i) + unat (LED_add t' ! i) \<and>
        unat (LED_count (fst (doLoop (numDerivedPins t') (t', b))) ! i) =
          fst (slot_step_spec (unat (LED_add t' ! i)) (unat (LED_count t' ! i), l))"
    if i: "i < numDerivedPins t'" for i
  proof -
    from i r(3) have "LED_count t' ! i \<in> set (LED_count t')" "LED_add t' ! i \<in> set (LED_add t')"
      by (simp_all add: wf_toggler_def)
    with r(4,5) have "LED_count t' ! i < 8" "LED_add t' ! i \<le> 8" by auto
    then have b: "unat (LED_count t' ! i) < 8" "unat (LED_add t' ! i) \<le> 8"
      by (simp_all add: word_less_nat_alt word_le_nat_alt)
    from uint8_add_exact [OF b] b doLoop_count [OF r(3) i, of b]
    show ?thesis
      by (simp add: slot_step_spec_def PHASE_MAX_def uint8_ge_8)
  qed
  with r(1,2) show ?thesis by blast
qed

text \<open>
  The theorem for a run after \<^verbatim>\<open>init\<close> with three pins that ends with slot 1 at phase 6
  and increment MAX: the sum 14 is not reduced modulo 256.
\<close>

theorem uint8_addition_exact_witness:
  "p_instance three_pin_system =
     Some \<lparr>numDerivedPins = 3, LED_Pins = [13, 18, 19], LED_count = [0, 0, 0], LED_add = [0, 0, 0]\<rparr> \<and>
   (\<exists>s' t'. exec [SetRate 3 1 MEDIUM, Tick, Tick, Tick, SetRate 3 1 MAX_RATE] three_pin_system
               = Some s' \<and>
            p_instance s' = Some t' \<and>
            (\<forall>i < numDerivedPins t'.
               unat (LED_count t' ! i + LED_add t' ! i) =
                 unat (LED_count t' ! i) + unat (LED_add t' ! i)))"
proof -
  let ?t = "\<lparr>numDerivedPins = 3, LED_Pins = [13, 18, 19], LED_count = [0, 0, 0], LED_add = [0, 0, 0]\<rparr>"
  have h2: "wf_toggler (numDerivedPins ?t) ?t" by (simp add: wf_toggler_def)
  have h3: "\<forall>c \<in> set (LED_count ?t). c < 8" by simp
  have h4: "\<forall>a \<in> set (LED_add ?t). a \<le> 8" by simp
  from uint8_addition_exact [OF three_pin_instance h2 h3 h4] three_pin_instance
  show ?thesis by blast
qed

subsection \<open>The value returned by \<^verbatim>\<open>init\<close>\<close>

lemma init_again: "p_instance s \<noteq> None \<Longrightarrow> init numPins pins s = (Some (- 1), s)"
  by (simp add: init_def)

text \<open>
  Claim C3. The first call of \<^verbatim>\<open>init\<close>, on a state without an instance, creates the
  instance and then reaches the end of the function body, where there is no
  \<^verbatim>\<open>return\<close> statement: it returns no value, so no success code. A second call returns
  -1 and leaves the state as the first call made it.
\<close>

theorem init_returns_no_value:
  "p_instance power_on = None \<and>
   fst (init 3 [13, 18, 19] power_on) = None \<and>
   p_instance (snd (init 3 [13, 18, 19] power_on)) \<noteq> None \<and>
   init 3 [13, 18, 19] (snd (init 3 [13, 18, 19] power_on)) =
     (Some (- 1), snd (init 3 [13, 18, 19] power_on))"
proof -
  have a: "p_instance power_on = None" by (simp add: power_on_def)
  have b: "fst (init 3 [13, 18, 19] power_on) = None"
    by (simp add: init_def a split: prod.splits)
  have c: "p_instance (snd (init 3 [13, 18, 19] power_on)) \<noteq> None"
    by (simp add: init_def a split: prod.splits)
  from a b c init_again [OF c] show ?thesis by simp
qed

end
